theory Spec2Isabelle
  imports Main "HOL-Library.Monad_Syntax"
begin

section \<open>Data model of \<^verbatim>\<open>parser/shared/metrics/apl.ts\<close>\<close>

text \<open>
  \<^verbatim>\<open>Spell\<close> (imported from \<^verbatim>\<open>common/SPELLS/Spell\<close>) and \<^verbatim>\<open>Ability\<close> (imported from
  \<^verbatim>\<open>parser/core/Events\<close>) are objects; the engine reads only \<^verbatim>\<open>spell.id\<close> and
  \<^verbatim>\<open>ability.guid\<close>. The field \<^verbatim>\<open>id\<close> is written \<open>spell_id\<close> here, since \<open>id\<close> is the
  identity function of HOL. Ids are JavaScript numbers holding integers; they are
  compared with \<^verbatim>\<open>===\<close>, which is equality on integers.
\<close>

record Spell =
  spell_id :: int
  spell_name :: string

record Ability =
  guid :: int
  ability_name :: string

text \<open>
  \<^verbatim>\<open>AnyEvent\<close> is a union discriminated by \<^verbatim>\<open>event.type\<close>. The engine distinguishes
  \<^verbatim>\<open>EventType.Cast\<close>, \<^verbatim>\<open>EventType.ApplyBuff\<close>, \<^verbatim>\<open>EventType.RemoveBuff\<close> and
  \<^verbatim>\<open>EventType.UpdateSpellUsable\<close>; every other kind is \<open>OtherEvent\<close>, carrying its
  type tag. The first argument of the first three constructors is \<^verbatim>\<open>sourceID\<close>, the
  actor that performed the event.
\<close>

datatype UpdateSpellUsableEvent =
  UpdateSpellUsableEvent (usable_ability: Ability) (isAvailable: bool)

datatype AnyEvent =
    Cast int Ability
  | ApplyBuff int Ability
  | RemoveBuff int Ability
  | UpdateSpellUsable UpdateSpellUsableEvent
  | OtherEvent string

text \<open>
  A condition state has the type \<^verbatim>\<open>any\<close>. The values that the engine can hand to a
  condition are \<^verbatim>\<open>undefined\<close>, a state of the condition's own type \<^verbatim>\<open>T\<close>, and a
  member that a plain object inherits from \<^verbatim>\<open>Object.prototype\<close>, named here by its
  property name.
\<close>

datatype 'st JSValue =
    Undefined
  | State 'st
  | Inherited string

text \<open>
  \<^verbatim>\<open>Condition<T>\<close>. \<^verbatim>\<open>init\<close> takes no argument, so it is given by the value it
  returns. \<open>validate\<close> is used only for its truthiness, so it returns \<open>bool\<close>. The
  three functions are functions of their arguments alone.
\<close>

record 'st Condition =
  key :: string
  init :: "'st JSValue"
  update :: "'st JSValue \<Rightarrow> AnyEvent \<Rightarrow> 'st JSValue"
  validate :: "'st JSValue \<Rightarrow> AnyEvent \<Rightarrow> bool"

text \<open>\<^verbatim>\<open>type Rule = Spell | ConditionalRule\<close>, told apart by \<^verbatim>\<open>'spell' in rule\<close>.\<close>

datatype 'st Rule =
    SpellRule Spell
  | ConditionalRule Spell "'st Condition"

record 'st Apl =
  conditions :: "'st Condition list option"
  rules :: "'st Rule list"

record 'st Violation =
  actualCast :: Ability
  expectedCast :: Spell
  rule :: "'st Rule"

text \<open>
  \<^verbatim>\<open>ConditionState\<close> and \<^verbatim>\<open>AbilityState\<close> are plain objects used as dictionaries;
  the maps below hold their own properties. An own property may hold \<^verbatim>\<open>undefined\<close>.

  The keys of \<^verbatim>\<open>AbilityState\<close> are numbers, hence decimal property names, which
  \<^verbatim>\<open>Object.prototype\<close> does not have: reading an absent key there yields
  \<^verbatim>\<open>undefined\<close>. The keys of \<^verbatim>\<open>ConditionState\<close> are arbitrary strings: reading a key
  that is not an own property yields the member of that name inherited from
  \<^verbatim>\<open>Object.prototype\<close> when there is one, and \<^verbatim>\<open>undefined\<close> otherwise.
\<close>

type_synonym 'st ConditionState = "string \<Rightarrow> 'st JSValue option"
type_synonym AbilityState = "int \<Rightarrow> UpdateSpellUsableEvent option"

text \<open>The property names of \<^verbatim>\<open>Object.prototype\<close> (ECMAScript, with its Annex B).\<close>

definition objectPrototypeNames :: "string list" where
  "objectPrototypeNames =
     [''constructor'', ''hasOwnProperty'', ''isPrototypeOf'', ''propertyIsEnumerable'',
      ''toLocaleString'', ''toString'', ''valueOf'', ''__proto__'',
      ''__defineGetter__'', ''__defineSetter__'', ''__lookupGetter__'',
      ''__lookupSetter__'']"

text \<open>The property read \<^verbatim>\<open>state[key]\<close> on a condition state.\<close>

definition getProperty :: "'st ConditionState \<Rightarrow> string \<Rightarrow> 'st JSValue" where
  "getProperty obj k =
     (case obj k of
        Some v \<Rightarrow> v
      | None \<Rightarrow> if k \<in> set objectPrototypeNames then Inherited k else Undefined)"

record 'st CheckResult =
  successes :: "'st Rule list"
  violations :: "'st Violation list"

record 'st CheckState = "'st CheckResult" +
  conditionState :: "'st ConditionState"
  abilityState :: AbilityState

record Info =
  playerId :: int

section \<open>The buff-presence condition\<close>

text \<open>
  The key is the template string \<^verbatim>\<open>`buffPresent-${spell.id}-${target}`\<close>. The
  conversion of a number to a string belongs to the language, not to this file; it is
  the parameter \<open>numberToString\<close>, and no statement depends on what it computes.
\<close>

definition buffPresent_update ::
  "Spell \<Rightarrow> bool JSValue \<Rightarrow> AnyEvent \<Rightarrow> bool JSValue" where
  "buffPresent_update sp state event =
     (case event of
        ApplyBuff src ab \<Rightarrow> if guid ab = spell_id sp then State True else state
      | RemoveBuff src ab \<Rightarrow> if guid ab = spell_id sp then State False else state
      | _ \<Rightarrow> state)"

text \<open>
  \<^verbatim>\<open>validate: (state, _event) => state\<close> returns the state itself; the caller tests its
  truthiness: \<^verbatim>\<open>undefined\<close> is falsy, and the members of \<^verbatim>\<open>Object.prototype\<close> are
  functions and objects, which are truthy.
\<close>

definition buffPresent_validate :: "bool JSValue \<Rightarrow> AnyEvent \<Rightarrow> bool" where
  "buffPresent_validate state event =
     (case state of Undefined \<Rightarrow> False | State b \<Rightarrow> b | Inherited k \<Rightarrow> True)"

definition buffPresent :: "(int \<Rightarrow> string) \<Rightarrow> Spell \<Rightarrow> int \<Rightarrow> bool Condition" where
  "buffPresent numberToString sp target =
     \<lparr> key = ''buffPresent-'' @ numberToString (spell_id sp) @ ''-'' @ numberToString target,
       init = State False,
       update = buffPresent_update sp,
       validate = buffPresent_validate \<rparr>"

section \<open>Condition state and ability state\<close>

text \<open>
  \<^verbatim>\<open>apl.conditions?.reduce(f, {}) || {}\<close>: an absent condition list gives the empty
  object; otherwise the reduction starts from the empty object and each step copies the
  own properties and defines the own property \<^verbatim>\<open>[cnd.key]\<close> (a later condition with the
  same key overwrites an earlier one).
\<close>

definition initState :: "'st Apl \<Rightarrow> 'st ConditionState" where
  "initState apl =
     (case conditions apl of
        None \<Rightarrow> (\<lambda>k. None)
      | Some cnds \<Rightarrow> foldl (\<lambda>state cnd. state(key cnd \<mapsto> init cnd)) (\<lambda>k. None) cnds)"

definition updateState :: "'st Apl \<Rightarrow> 'st ConditionState \<Rightarrow> AnyEvent \<Rightarrow> 'st ConditionState" where
  "updateState apl oldState event =
     (case conditions apl of
        None \<Rightarrow> (\<lambda>k. None)
      | Some cnds \<Rightarrow>
          foldl
            (\<lambda>state cnd. state(key cnd \<mapsto> update cnd (getProperty oldState (key cnd)) event))
            (\<lambda>k. None) cnds)"

fun spell :: "'st Rule \<Rightarrow> Spell" where
  "spell (SpellRule sp) = sp"
| "spell (ConditionalRule sp cnd) = sp"

definition ruleApplies :: "'st Rule \<Rightarrow> 'st CheckState \<Rightarrow> AnyEvent \<Rightarrow> bool" where
  "ruleApplies r result event =
     ((case abilityState result (spell_id (spell r)) of
         None \<Rightarrow> True
       | Some u \<Rightarrow> isAvailable u) \<and>
      (case r of
         SpellRule sp \<Rightarrow> True
       | ConditionalRule sp cnd \<Rightarrow>
           validate cnd (getProperty (conditionState result) (key cnd)) event))"

text \<open>The \<^verbatim>\<open>for ... of\<close> loop of \<^verbatim>\<open>applicableRule\<close>, with its early return.\<close>

fun applicableRule_loop :: "'st Rule list \<Rightarrow> 'st CheckState \<Rightarrow> AnyEvent \<Rightarrow> 'st Rule option" where
  "applicableRule_loop [] result event = None"
| "applicableRule_loop (r # rs) result event =
     (if ruleApplies r result event then Some r else applicableRule_loop rs result event)"

definition applicableRule :: "'st Apl \<Rightarrow> 'st CheckState \<Rightarrow> AnyEvent \<Rightarrow> 'st Rule option" where
  "applicableRule apl result event = applicableRule_loop (rules apl) result event"

definition updateAbilities :: "AbilityState \<Rightarrow> AnyEvent \<Rightarrow> AbilityState" where
  "updateAbilities state event =
     (case event of
        UpdateSpellUsable u \<Rightarrow> state(guid (usable_ability u) \<mapsto> u)
      | _ \<Rightarrow> state)"

section \<open>The check\<close>

definition applicableSpells :: "'st Apl \<Rightarrow> int set" where
  "applicableSpells apl = set (map (\<lambda>r. spell_id (spell r)) (rules apl))"

text \<open>
  The first statement of the reducer: a governed cast is classified and pushed onto
  \<^verbatim>\<open>result.successes\<close> or \<^verbatim>\<open>result.violations\<close>.
\<close>

definition classify :: "'st Apl \<Rightarrow> 'st CheckState \<Rightarrow> AnyEvent \<Rightarrow> 'st CheckState" where
  "classify apl result event =
     (case event of
        Cast src ab \<Rightarrow>
          if guid ab \<in> applicableSpells apl then
            (case applicableRule apl result event of
               Some r \<Rightarrow>
                 if spell_id (spell r) = guid ab
                 then result\<lparr>successes := successes result @ [r]\<rparr>
                 else result\<lparr>violations := violations result @
                        [\<lparr>actualCast = ab, expectedCast = spell r, rule = r\<rparr>]\<rparr>
             | None \<Rightarrow> result)
          else result
      | _ \<Rightarrow> result)"

text \<open>
  The reducer: classify, then return the record with \<^verbatim>\<open>abilityState\<close> and
  \<^verbatim>\<open>conditionState\<close> replaced, in this order.
\<close>

definition reducer :: "'st Apl \<Rightarrow> 'st CheckState \<Rightarrow> AnyEvent \<Rightarrow> 'st CheckState" where
  "reducer apl result event =
     (let result' = classify apl result event in
      result'\<lparr>abilityState := updateAbilities (abilityState result') event,
              conditionState := updateState apl (conditionState result') event\<rparr>)"

definition initialState :: "'st Apl \<Rightarrow> 'st CheckState" where
  "initialState apl =
     \<lparr> successes = [], violations = [],
       conditionState = initState apl, abilityState = (\<lambda>k. None) \<rparr>"

text \<open>
  \<^verbatim>\<open>aplCheck(apl)(events, info)\<close>. The metric destructures \<^verbatim>\<open>playerId\<close> from \<^verbatim>\<open>info\<close>; the
  caller sees the \<^verbatim>\<open>successes\<close> and \<^verbatim>\<open>violations\<close> of the final accumulator.
\<close>

definition aplRun :: "'st Apl \<Rightarrow> AnyEvent list \<Rightarrow> 'st CheckState" where
  "aplRun apl events = foldl (reducer apl) (initialState apl) events"

definition aplCheck :: "'st Apl \<Rightarrow> AnyEvent list \<Rightarrow> Info \<Rightarrow> 'st CheckResult" where
  "aplCheck apl events info =
     (let pid = playerId info; final = aplRun apl events in
      \<lparr> successes = successes final, violations = violations final \<rparr>)"

section \<open>The accumulator as mutable objects\<close>

text \<open>
  The reducer mutates its accumulator: \<^verbatim>\<open>result.successes.push(rule)\<close>,
  \<^verbatim>\<open>result.violations.push(...)\<close>, and \<^verbatim>\<open>state[event.ability.guid] = event\<close> in
  \<^verbatim>\<open>updateAbilities\<close>, which returns the object it was given. The object spread
  \<^verbatim>\<open>{...result, ...}\<close> copies references, so all accumulators of one run share the two
  arrays and the ability object that the initial accumulator literal allocates. The
  condition state is rebuilt as a new object at every step and never mutated.

  This second embedding keeps those three objects in a store. A store operation on an
  address that holds no object of the expected kind returns \<open>None\<close> (a runtime type
  error). \<open>fresh\<close> is the next address that an array or object literal receives.
\<close>

datatype 'st Obj =
    RuleArray "'st Rule list"
  | ViolationArray "'st Violation list"
  | AbilityObject AbilityState

record 'st Store =
  cells :: "nat \<Rightarrow> 'st Obj option"
  fresh :: nat

definition alloc :: "'st Obj \<Rightarrow> 'st Store \<Rightarrow> nat \<times> 'st Store" where
  "alloc obj h = (fresh h, h\<lparr>cells := (cells h)(fresh h \<mapsto> obj), fresh := Suc (fresh h)\<rparr>)"

record 'st CheckStateRef =
  successesRef :: nat
  violationsRef :: nat
  conditionStateVal :: "'st ConditionState"
  abilityStateRef :: nat

text \<open>The accumulator as the code reads it through its references.\<close>

definition deref :: "'st Store \<Rightarrow> 'st CheckStateRef \<Rightarrow> 'st CheckState option" where
  "deref h p =
     (case cells h (successesRef p) of
        Some (RuleArray ss) \<Rightarrow>
          (case cells h (violationsRef p) of
             Some (ViolationArray vs) \<Rightarrow>
               (case cells h (abilityStateRef p) of
                  Some (AbilityObject a) \<Rightarrow>
                    Some \<lparr> successes = ss, violations = vs,
                           conditionState = conditionStateVal p, abilityState = a \<rparr>
                | _ \<Rightarrow> None)
           | _ \<Rightarrow> None)
      | _ \<Rightarrow> None)"

definition pushRule :: "nat \<Rightarrow> 'st Rule \<Rightarrow> 'st Store \<Rightarrow> 'st Store option" where
  "pushRule a r h =
     (case cells h a of
        Some (RuleArray xs) \<Rightarrow> Some (h\<lparr>cells := (cells h)(a \<mapsto> RuleArray (xs @ [r]))\<rparr>)
      | _ \<Rightarrow> None)"

definition pushViolation :: "nat \<Rightarrow> 'st Violation \<Rightarrow> 'st Store \<Rightarrow> 'st Store option" where
  "pushViolation a v h =
     (case cells h a of
        Some (ViolationArray xs) \<Rightarrow>
          Some (h\<lparr>cells := (cells h)(a \<mapsto> ViolationArray (xs @ [v]))\<rparr>)
      | _ \<Rightarrow> None)"

definition updateAbilities_store :: "nat \<Rightarrow> AnyEvent \<Rightarrow> 'st Store \<Rightarrow> 'st Store option" where
  "updateAbilities_store a event h =
     (case event of
        UpdateSpellUsable u \<Rightarrow>
          (case cells h a of
             Some (AbilityObject st) \<Rightarrow>
               Some (h\<lparr>cells := (cells h)(a \<mapsto> AbilityObject (st(guid (usable_ability u) \<mapsto> u)))\<rparr>)
           | _ \<Rightarrow> None)
      | _ \<Rightarrow> Some h)"

definition classify_store ::
  "'st Apl \<Rightarrow> 'st CheckStateRef \<Rightarrow> 'st Store \<Rightarrow> AnyEvent \<Rightarrow> 'st Store option" where
  "classify_store apl p h event =
     (case event of
        Cast src ab \<Rightarrow>
          if guid ab \<in> applicableSpells apl then
            do {
              result \<leftarrow> deref h p;
              (case applicableRule apl result event of
                 Some r \<Rightarrow>
                   if spell_id (spell r) = guid ab
                   then pushRule (successesRef p) r h
                   else pushViolation (violationsRef p)
                          \<lparr>actualCast = ab, expectedCast = spell r, rule = r\<rparr> h
               | None \<Rightarrow> Some h)
            }
          else Some h
      | _ \<Rightarrow> Some h)"

definition reducer_store ::
  "'st Apl \<Rightarrow> 'st CheckStateRef \<times> 'st Store \<Rightarrow> AnyEvent \<Rightarrow>
   ('st CheckStateRef \<times> 'st Store) option" where
  "reducer_store apl acc event =
     (case acc of (p, h) \<Rightarrow>
        do {
          h1 \<leftarrow> classify_store apl p h event;
          h2 \<leftarrow> updateAbilities_store (abilityStateRef p) event h1;
          Some (p\<lparr>conditionStateVal := updateState apl (conditionStateVal p) event\<rparr>, h2)
        })"

fun reduce_store ::
  "'st Apl \<Rightarrow> 'st CheckStateRef \<times> 'st Store \<Rightarrow> AnyEvent list \<Rightarrow>
   ('st CheckStateRef \<times> 'st Store) option" where
  "reduce_store apl acc [] = Some acc"
| "reduce_store apl acc (e # es) =
     (case reducer_store apl acc e of
        None \<Rightarrow> None
      | Some acc' \<Rightarrow> reduce_store apl acc' es)"

text \<open>
  The initial accumulator \<^verbatim>\<open>{ successes: [], violations: [], abilityState: {},
  conditionState: initState(apl) }\<close>, then the reduction.
\<close>

definition aplCheck_store ::
  "'st Apl \<Rightarrow> AnyEvent list \<Rightarrow> Info \<Rightarrow> 'st Store \<Rightarrow>
   ('st CheckStateRef \<times> 'st Store) option" where
  "aplCheck_store apl events info h =
     (let pid = playerId info;
          (s, h1) = alloc (RuleArray []) h;
          (v, h2) = alloc (ViolationArray []) h1;
          (a, h3) = alloc (AbilityObject (\<lambda>k. None)) h2
      in reduce_store apl
           (\<lparr> successesRef = s, violationsRef = v,
              conditionStateVal = initState apl, abilityStateRef = a \<rparr>, h3)
           events)"

text \<open>What the caller reads from the returned accumulator.\<close>

definition readResult :: "'st Store \<Rightarrow> 'st CheckStateRef \<Rightarrow> 'st CheckResult option" where
  "readResult h p =
     map_option (\<lambda>s. \<lparr>successes = successes s, violations = violations s\<rparr>) (deref h p)"

text \<open>A run writes only to the three objects of its accumulator.\<close>

definition frame :: "'st CheckStateRef \<Rightarrow> 'st Store \<Rightarrow> 'st Store \<Rightarrow> bool" where
  "frame p h h' \<longleftrightarrow>
     fresh h' = fresh h \<and>
     (\<forall>a. a \<noteq> successesRef p \<and> a \<noteq> violationsRef p \<and> a \<noteq> abilityStateRef p
        \<longrightarrow> cells h' a = cells h a)"

section \<open>Example data\<close>

abbreviation spellA :: Spell where
  "spellA \<equiv> \<lparr>spell_id = 1, spell_name = ''A''\<rparr>"

abbreviation spellB :: Spell where
  "spellB \<equiv> \<lparr>spell_id = 2, spell_name = ''B''\<rparr>"

abbreviation abilityA :: Ability where
  "abilityA \<equiv> \<lparr>guid = 1, ability_name = ''A''\<rparr>"

abbreviation abilityB :: Ability where
  "abilityB \<equiv> \<lparr>guid = 2, ability_name = ''B''\<rparr>"

abbreviation aplA :: "bool Apl" where
  "aplA \<equiv> \<lparr>conditions = None, rules = [SpellRule spellA]\<rparr>"

abbreviation aplAB :: "bool Apl" where
  "aplAB \<equiv> \<lparr>conditions = None, rules = [SpellRule spellA, SpellRule spellB]\<rparr>"

text \<open>A condition that becomes true at the first cast of any spell.\<close>

abbreviation castSeen :: "bool Condition" where
  "castSeen \<equiv>
     \<lparr> key = ''cast-seen'', init = State False,
       update = (\<lambda>st ev. case ev of Cast src ab \<Rightarrow> State True | _ \<Rightarrow> st),
       validate = (\<lambda>st ev. st = State True) \<rparr>"

text \<open>
  A condition with the functions of \<open>buffPresent\<close> for A, under the key
  \<^verbatim>\<open>constructor\<close>, and an APL that uses it in a rule without registering it.
\<close>

abbreviation constructorCondition :: "bool Condition" where
  "constructorCondition \<equiv>
     \<lparr> key = ''constructor'', init = State False,
       update = buffPresent_update spellA, validate = buffPresent_validate \<rparr>"

abbreviation constructorApl :: "bool Apl" where
  "constructorApl \<equiv>
     \<lparr>conditions = Some [], rules = [ConditionalRule spellA constructorCondition]\<rparr>"

abbreviation castSeenApl :: "bool Apl" where
  "castSeenApl \<equiv>
     \<lparr>conditions = Some [castSeen], rules = [ConditionalRule spellA castSeen]\<rparr>"

section \<open>Basic facts about the reducer and the fold\<close>

lemma classify_abilityState [simp]: "abilityState (classify apl s e) = abilityState s"
  by (simp add: classify_def split: AnyEvent.splits option.splits)

lemma classify_conditionState [simp]: "conditionState (classify apl s e) = conditionState s"
  by (simp add: classify_def split: AnyEvent.splits option.splits)

lemma reducer_abilityState:
  "abilityState (reducer apl s e) = updateAbilities (abilityState s) e"
  by (simp add: reducer_def Let_def)

lemma reducer_conditionState:
  "conditionState (reducer apl s e) = updateState apl (conditionState s) e"
  by (simp add: reducer_def Let_def)

lemma reducer_successes: "successes (reducer apl s e) = successes (classify apl s e)"
  by (simp add: reducer_def Let_def)

lemma reducer_violations: "violations (reducer apl s e) = violations (classify apl s e)"
  by (simp add: reducer_def Let_def)

lemma aplRun_Nil: "aplRun apl [] = initialState apl"
  by (simp add: aplRun_def)

lemma aplRun_snoc: "aplRun apl (pre @ [e]) = reducer apl (aplRun apl pre) e"
  by (simp add: aplRun_def)

lemma aplRun_append: "aplRun apl (pre @ post) = foldl (reducer apl) (aplRun apl pre) post"
  by (simp add: aplRun_def)

lemma aplRun_abilityState:
  "abilityState (aplRun apl evs) = foldl updateAbilities (\<lambda>k. None) evs"
  by (induction evs rule: rev_induct)
    (simp_all add: aplRun_Nil aplRun_snoc initialState_def reducer_abilityState)

lemma aplRun_conditionState:
  "conditionState (aplRun apl evs) = foldl (updateState apl) (initState apl) evs"
  by (induction evs rule: rev_induct)
    (simp_all add: aplRun_Nil aplRun_snoc initialState_def reducer_conditionState)

lemma aplCheck_Nil: "aplCheck apl [] info = \<lparr>successes = [], violations = []\<rparr>"
  by (simp add: aplCheck_def aplRun_def initialState_def Let_def)

lemma aplCheck_sel:
  "successes (aplCheck apl events info) = successes (aplRun apl events)"
  "violations (aplCheck apl events info) = violations (aplRun apl events)"
  by (simp_all add: aplCheck_def Let_def)

text \<open>The loop of \<open>applicableRule\<close> is a first-match search.\<close>

lemma applicableRule_loop_find:
  "applicableRule_loop rs result event = List.find (\<lambda>r. ruleApplies r result event) rs"
  by (induction rs) simp_all

lemma ruleApplies_unfold:
  "ruleApplies r result event \<longleftrightarrow>
     (abilityState result (spell_id (spell r)) = None \<or>
      (\<exists>u. abilityState result (spell_id (spell r)) = Some u \<and> isAvailable u)) \<and>
     ((\<exists>sp. r = SpellRule sp) \<or>
      (\<exists>sp cnd. r = ConditionalRule sp cnd \<and>
         validate cnd (getProperty (conditionState result) (key cnd)) event))"
  by (cases r) (auto simp: ruleApplies_def split: option.splits)

lemma ruleApplies_cong_state:
  "abilityState s = abilityState t \<Longrightarrow> conditionState s = conditionState t \<Longrightarrow>
   ruleApplies r s event = ruleApplies r t event"
  by (cases r) (simp_all add: ruleApplies_def)

lemma applicableRule_cong_state:
  "abilityState s = abilityState t \<Longrightarrow> conditionState s = conditionState t \<Longrightarrow>
   applicableRule apl s event = applicableRule apl t event"
  unfolding applicableRule_def applicableRule_loop_find
  by (simp add: ruleApplies_cong_state [of s t])

lemma classify_violation:
  assumes "rules apl = A # rest" "ruleApplies A result (Cast src ab)"
    "guid ab \<in> applicableSpells apl" "spell_id (spell A) \<noteq> guid ab"
  shows "classify apl result (Cast src ab) =
     result\<lparr>violations := violations result @
        [\<lparr>actualCast = ab, expectedCast = spell A, rule = A\<rparr>]\<rparr>"
  using assms by (simp add: classify_def applicableRule_def)

text \<open>Running further events only appends to the two lists.\<close>

lemma foldl_reducer_extends:
  "\<exists>ss vs. successes (foldl (reducer apl) s post) = successes s @ ss \<and>
           violations (foldl (reducer apl) s post) = violations s @ vs"
proof (induction post arbitrary: s)
  case Nil
  show ?case by simp
next
  case (Cons e post)
  have step: "\<exists>ss vs. successes (reducer apl s e) = successes s @ ss \<and>
                      violations (reducer apl s e) = violations s @ vs"
    by (simp add: reducer_successes reducer_violations classify_def
        split: AnyEvent.splits option.splits)
  from Cons.IH [of "reducer apl s e"] step show ?case
    by (metis append.assoc foldl_Cons)
qed

text \<open>A snapshot is absent exactly when no availability update named the id.\<close>

lemma foldl_updateAbilities_None:
  "foldl updateAbilities st events i = None \<longleftrightarrow>
     st i = None \<and>
     (\<forall>u. UpdateSpellUsable u \<in> set events \<longrightarrow> guid (usable_ability u) \<noteq> i)"
  by (induction events arbitrary: st)
    (auto simp: updateAbilities_def split: AnyEvent.splits)

text \<open>A key that no registered condition owns is never written.\<close>

lemma foldl_key_absent:
  "k \<notin> key ` set cnds \<Longrightarrow>
   foldl (\<lambda>state cnd. state(key cnd \<mapsto> f cnd)) st cnds k = st k"
  by (induction cnds arbitrary: st) auto

lemma initState_absent:
  "\<forall>cnds. conditions apl = Some cnds \<longrightarrow> k \<notin> key ` set cnds \<Longrightarrow> initState apl k = None"
  by (simp add: initState_def foldl_key_absent split: option.splits)

lemma updateState_absent:
  "\<forall>cnds. conditions apl = Some cnds \<longrightarrow> k \<notin> key ` set cnds \<Longrightarrow>
   updateState apl old event k = None"
  by (simp add: updateState_def foldl_key_absent split: option.splits)

lemma aplRun_conditionState_absent:
  assumes "\<forall>cnds. conditions apl = Some cnds \<longrightarrow> k \<notin> key ` set cnds"
  shows "conditionState (aplRun apl events) k = None"
proof (induction events rule: rev_induct)
  case Nil
  show ?case using assms by (simp add: aplRun_Nil initialState_def initState_absent)
next
  case (snoc e events)
  show ?case using assms
    by (simp add: aplRun_snoc reducer_conditionState updateState_absent)
qed

section \<open>The store embedding computes the pure fold\<close>

lemma deref_distinct:
  assumes "deref h p = Some s"
  shows "successesRef p \<noteq> violationsRef p" "successesRef p \<noteq> abilityStateRef p"
    "violationsRef p \<noteq> abilityStateRef p"
  using assms by (auto simp: deref_def split: option.splits Obj.splits)

lemma deref_cells:
  assumes "deref h p = Some s"
  shows "cells h (successesRef p) = Some (RuleArray (successes s))"
    "cells h (violationsRef p) = Some (ViolationArray (violations s))"
    "cells h (abilityStateRef p) = Some (AbilityObject (abilityState s))"
    "conditionStateVal p = conditionState s"
  using assms by (auto simp: deref_def split: option.splits Obj.splits)

lemma pushRule_refines:
  assumes "deref h p = Some s"
  shows "\<exists>h'. pushRule (successesRef p) r h = Some h' \<and>
      deref h' p = Some (s\<lparr>successes := successes s @ [r]\<rparr>) \<and> frame p h h'"
  using deref_distinct [OF assms] deref_cells [OF assms]
  by (cases s) (simp add: pushRule_def deref_def frame_def)

lemma pushViolation_refines:
  assumes "deref h p = Some s"
  shows "\<exists>h'. pushViolation (violationsRef p) v h = Some h' \<and>
      deref h' p = Some (s\<lparr>violations := violations s @ [v]\<rparr>) \<and> frame p h h'"
  using deref_distinct [OF assms] deref_cells [OF assms]
  by (cases s) (simp add: pushViolation_def deref_def frame_def)

lemma classify_store_refines:
  assumes "deref h p = Some s"
  shows "\<exists>h'. classify_store apl p h e = Some h' \<and> deref h' p = Some (classify apl s e) \<and>
      frame p h h'"
proof (cases e)
  case (Cast src ab)
  show ?thesis
  proof (cases "guid ab \<in> applicableSpells apl")
    case False
    with Cast assms show ?thesis
      by (simp add: classify_store_def classify_def frame_def)
  next
    case True
    show ?thesis
    proof (cases "applicableRule apl s e")
      case None
      with Cast True assms show ?thesis
        by (simp add: classify_store_def classify_def frame_def)
    next
      case (Some r)
      show ?thesis
      proof (cases "spell_id (spell r) = guid ab")
        case eq: True
        with Cast True Some assms pushRule_refines [OF assms, of r] show ?thesis
          by (simp add: classify_store_def classify_def)
      next
        case neq: False
        with Cast True Some assms
          pushViolation_refines [OF assms,
            of "\<lparr>actualCast = ab, expectedCast = spell r, rule = r\<rparr>"]
        show ?thesis
          by (simp add: classify_store_def classify_def)
      qed
    qed
  qed
qed (use assms in \<open>simp_all add: classify_store_def classify_def frame_def\<close>)

lemma updateAbilities_store_refines:
  assumes "deref h p = Some s"
  shows "\<exists>h'. updateAbilities_store (abilityStateRef p) e h = Some h' \<and>
      deref h' p = Some (s\<lparr>abilityState := updateAbilities (abilityState s) e\<rparr>) \<and>
      frame p h h'"
proof (cases e)
  case (UpdateSpellUsable u)
  with deref_distinct [OF assms] deref_cells [OF assms] show ?thesis
    by (cases s)
      (simp add: updateAbilities_store_def updateAbilities_def deref_def frame_def)
qed (use assms in \<open>simp_all add: updateAbilities_store_def updateAbilities_def frame_def\<close>)

lemma frame_trans: "frame p h h1 \<Longrightarrow> frame p h1 h2 \<Longrightarrow> frame p h h2"
  by (simp add: frame_def)

lemma frame_refl: "frame p h h"
  by (simp add: frame_def)

lemma frame_cond [simp]: "frame (p\<lparr>conditionStateVal := c\<rparr>) h h' = frame p h h'"
  by (simp add: frame_def)

lemma deref_cond:
  "deref h p = Some s \<Longrightarrow>
   deref h (p\<lparr>conditionStateVal := c\<rparr>) = Some (s\<lparr>conditionState := c\<rparr>)"
  by (auto simp: deref_def split: option.splits Obj.splits)

lemma reducer_store_refines:
  assumes "deref h p = Some s"
  shows "\<exists>p' h'. reducer_store apl (p, h) e = Some (p', h') \<and>
      deref h' p' = Some (reducer apl s e) \<and> frame p h h' \<and>
      successesRef p' = successesRef p \<and> violationsRef p' = violationsRef p \<and>
      abilityStateRef p' = abilityStateRef p"
proof -
  obtain h1 where h1: "classify_store apl p h e = Some h1"
    "deref h1 p = Some (classify apl s e)" "frame p h h1"
    using classify_store_refines [OF assms] by blast
  obtain h2 where h2: "updateAbilities_store (abilityStateRef p) e h1 = Some h2"
    "deref h2 p = Some ((classify apl s e)
        \<lparr>abilityState := updateAbilities (abilityState (classify apl s e)) e\<rparr>)"
    "frame p h1 h2"
    using updateAbilities_store_refines [OF h1(2)] by blast
  let ?p' = "p\<lparr>conditionStateVal := updateState apl (conditionStateVal p) e\<rparr>"
  have "reducer_store apl (p, h) e = Some (?p', h2)"
    by (simp add: reducer_store_def h1(1) h2(1))
  moreover have "deref h2 ?p' = Some (reducer apl s e)"
    using deref_cond [OF h2(2)] deref_cells(4) [OF assms]
    by (simp add: reducer_def Let_def)
  moreover have "frame p h h2"
    using h1(3) h2(3) by (rule frame_trans)
  ultimately show ?thesis by simp
qed

lemma reduce_store_refines:
  assumes "deref h p = Some s"
  shows "\<exists>p' h'. reduce_store apl (p, h) events = Some (p', h') \<and>
      deref h' p' = Some (foldl (reducer apl) s events) \<and> frame p h h' \<and>
      successesRef p' = successesRef p \<and> violationsRef p' = violationsRef p \<and>
      abilityStateRef p' = abilityStateRef p"
  using assms
proof (induction events arbitrary: p h s)
  case Nil
  then show ?case by (simp add: frame_refl)
next
  case (Cons e events)
  obtain p1 h1 where s1: "reducer_store apl (p, h) e = Some (p1, h1)"
    "deref h1 p1 = Some (reducer apl s e)" "frame p h h1"
    "successesRef p1 = successesRef p" "violationsRef p1 = violationsRef p"
    "abilityStateRef p1 = abilityStateRef p"
    using reducer_store_refines [OF Cons.prems] by blast
  obtain p2 h2 where s2: "reduce_store apl (p1, h1) events = Some (p2, h2)"
    "deref h2 p2 = Some (foldl (reducer apl) (reducer apl s e) events)" "frame p1 h1 h2"
    "successesRef p2 = successesRef p1" "violationsRef p2 = violationsRef p1"
    "abilityStateRef p2 = abilityStateRef p1"
    using Cons.IH [OF s1(2)] by blast
  have "frame p h1 h2" using s2(3) s1(4,5,6) by (simp add: frame_def)
  with s1(3) have "frame p h h2" by (rule frame_trans)
  with s1 s2 show ?case by simp
qed

lemma deref_initial:
  "deref
     (snd (alloc (AbilityObject (\<lambda>k. None))
        (snd (alloc (ViolationArray []) (snd (alloc (RuleArray []) h))))))
     \<lparr> successesRef = fresh h, violationsRef = Suc (fresh h),
       conditionStateVal = initState apl, abilityStateRef = Suc (Suc (fresh h)) \<rparr> =
   Some (initialState apl)"
  by (simp add: deref_def alloc_def initialState_def)

lemma aplCheck_store_refines:
  "\<exists>p h'. aplCheck_store apl events info h = Some (p, h') \<and>
     readResult h' p = Some (aplCheck apl events info) \<and>
     successesRef p = fresh h \<and> violationsRef p = Suc (fresh h) \<and>
     abilityStateRef p = Suc (Suc (fresh h)) \<and>
     fresh h' = Suc (Suc (Suc (fresh h))) \<and>
     (\<forall>a. a \<noteq> fresh h \<and> a \<noteq> Suc (fresh h) \<and> a \<noteq> Suc (Suc (fresh h))
        \<longrightarrow> cells h' a = cells h a)"
proof -
  let ?h3 = "snd (alloc (AbilityObject (\<lambda>k. None))
        (snd (alloc (ViolationArray []) (snd (alloc (RuleArray []) h)))))"
  let ?p0 = "\<lparr> successesRef = fresh h, violationsRef = Suc (fresh h),
       conditionStateVal = initState apl, abilityStateRef = Suc (Suc (fresh h)) \<rparr>"
  have run: "aplCheck_store apl events info h = reduce_store apl (?p0, ?h3) events"
    by (simp add: aplCheck_store_def alloc_def Let_def)
  obtain p h' where r: "reduce_store apl (?p0, ?h3) events = Some (p, h')"
    "deref h' p = Some (foldl (reducer apl) (initialState apl) events)"
    "frame ?p0 ?h3 h'" "successesRef p = successesRef ?p0"
    "violationsRef p = violationsRef ?p0" "abilityStateRef p = abilityStateRef ?p0"
    using reduce_store_refines [OF deref_initial, of apl h apl events] by blast
  have "readResult h' p = Some (aplCheck apl events info)"
    by (simp add: readResult_def r(2) aplCheck_def aplRun_def Let_def)
  moreover have "fresh h' = Suc (Suc (Suc (fresh h)))"
    using r(3) by (simp add: frame_def alloc_def)
  moreover have "\<forall>a. a \<noteq> fresh h \<and> a \<noteq> Suc (fresh h) \<and> a \<noteq> Suc (Suc (fresh h))
        \<longrightarrow> cells h' a = cells h a"
    using r(3) by (simp add: frame_def alloc_def)
  ultimately show ?thesis using run r(1,4,5,6) by simp
qed

lemma readResult_cong:
  "cells h' (successesRef p) = cells h (successesRef p) \<Longrightarrow>
   cells h' (violationsRef p) = cells h (violationsRef p) \<Longrightarrow>
   cells h' (abilityStateRef p) = cells h (abilityStateRef p) \<Longrightarrow>
   readResult h' p = readResult h p"
  unfolding readResult_def deref_def by (simp only:)

lemmas run_defs =
  aplCheck_def aplRun_def reducer_def classify_def applicableSpells_def applicableRule_def
  ruleApplies_def initialState_def initState_def updateState_def updateAbilities_def
  getProperty_def objectPrototypeNames_def Let_def

section \<open>Claims\<close>

subsection \<open>C1: the source actor of a cast\<close>

text \<open>
  C1 states that only casts performed by the actor \<^verbatim>\<open>info.playerId\<close> are evaluated: a
  cast whose source is another actor leaves no entry in \<open>successes\<close> or \<open>violations\<close>.
  The reducer tests \<^verbatim>\<open>event.type === EventType.Cast\<close> and the governed ids only; the
  destructured \<^verbatim>\<open>playerId\<close> is never read. The theorem evaluates the check with player
  id 1 on a single cast of the governed spell A by actor 2: the cast is recorded as a
  success.
\<close>

theorem other_actor_cast_is_evaluated:
  "aplCheck aplA [Cast 2 abilityA]
     \<lparr>playerId = 1\<rparr> =
   \<lparr>successes = [SpellRule spellA], violations = []\<rparr>"
  by (simp add: run_defs)

text \<open>The result is the same for every player id.\<close>

lemma aplCheck_ignores_playerId:
  "aplCheck apl events info = aplCheck apl events info'"
  by (simp add: aplCheck_def Let_def)

subsection \<open>C2: first-match rule selection\<close>

text \<open>
  C2: \<open>applicableRule\<close> scans \<open>rules apl\<close> in declaration order and returns the first
  rule that qualifies, and none when no rule qualifies. A rule qualifies when the
  latest availability snapshot of its spell is absent or marked available, and the rule
  is unconditional or its condition validates against the condition state stored under
  its key and the event. In particular, when the rules are \<open>[A, B]\<close> and both qualify,
  a cast of B's spell (different from A's) adds a violation that expects A's spell, and
  no success.
\<close>

theorem applicableRule_first_match:
  "(applicableRule apl result event = Some r \<longleftrightarrow>
      (\<exists>i < length (rules apl). rules apl ! i = r \<and> ruleApplies r result event \<and>
         (\<forall>j < i. \<not> ruleApplies (rules apl ! j) result event))) \<and>
   (applicableRule apl result event = None \<longleftrightarrow>
      (\<forall>q \<in> set (rules apl). \<not> ruleApplies q result event)) \<and>
   (ruleApplies r result event \<longleftrightarrow>
      (abilityState result (spell_id (spell r)) = None \<or>
       (\<exists>u. abilityState result (spell_id (spell r)) = Some u \<and> isAvailable u)) \<and>
      ((\<exists>sp. r = SpellRule sp) \<or>
       (\<exists>sp cnd. r = ConditionalRule sp cnd \<and>
          validate cnd (getProperty (conditionState result) (key cnd)) event))) \<and>
   (rules apl = [A, B] \<and> ruleApplies A (aplRun apl pre) (Cast src ab) \<and>
    ruleApplies B (aplRun apl pre) (Cast src ab) \<and> guid ab = spell_id (spell B) \<and>
    spell_id (spell A) \<noteq> spell_id (spell B) \<longrightarrow>
      aplCheck apl (pre @ [Cast src ab]) info =
        \<lparr> successes = successes (aplCheck apl pre info),
          violations = violations (aplCheck apl pre info) @
            [\<lparr>actualCast = ab, expectedCast = spell A, rule = A\<rparr>] \<rparr>)"
proof (intro conjI)
  show "applicableRule apl result event = Some r \<longleftrightarrow>
      (\<exists>i < length (rules apl). rules apl ! i = r \<and> ruleApplies r result event \<and>
         (\<forall>j < i. \<not> ruleApplies (rules apl ! j) result event))"
    unfolding applicableRule_def applicableRule_loop_find find_Some_iff by blast
  show "applicableRule apl result event = None \<longleftrightarrow>
      (\<forall>q \<in> set (rules apl). \<not> ruleApplies q result event)"
    unfolding applicableRule_def applicableRule_loop_find find_None_iff by blast
  show "ruleApplies r result event \<longleftrightarrow>
      (abilityState result (spell_id (spell r)) = None \<or>
       (\<exists>u. abilityState result (spell_id (spell r)) = Some u \<and> isAvailable u)) \<and>
      ((\<exists>sp. r = SpellRule sp) \<or>
       (\<exists>sp cnd. r = ConditionalRule sp cnd \<and>
          validate cnd (getProperty (conditionState result) (key cnd)) event))"
    by (rule ruleApplies_unfold)
  show "rules apl = [A, B] \<and> ruleApplies A (aplRun apl pre) (Cast src ab) \<and>
    ruleApplies B (aplRun apl pre) (Cast src ab) \<and> guid ab = spell_id (spell B) \<and>
    spell_id (spell A) \<noteq> spell_id (spell B) \<longrightarrow>
      aplCheck apl (pre @ [Cast src ab]) info =
        \<lparr> successes = successes (aplCheck apl pre info),
          violations = violations (aplCheck apl pre info) @
            [\<lparr>actualCast = ab, expectedCast = spell A, rule = A\<rparr>] \<rparr>"
  proof
    assume h: "rules apl = [A, B] \<and> ruleApplies A (aplRun apl pre) (Cast src ab) \<and>
      ruleApplies B (aplRun apl pre) (Cast src ab) \<and> guid ab = spell_id (spell B) \<and>
      spell_id (spell A) \<noteq> spell_id (spell B)"
    then have "guid ab \<in> applicableSpells apl"
      by (simp add: applicableSpells_def)
    with h have "classify apl (aplRun apl pre) (Cast src ab) =
        (aplRun apl pre)\<lparr>violations := violations (aplRun apl pre) @
          [\<lparr>actualCast = ab, expectedCast = spell A, rule = A\<rparr>]\<rparr>"
      by (intro classify_violation [where rest = "[B]"]) simp_all
    then show "aplCheck apl (pre @ [Cast src ab]) info =
        \<lparr> successes = successes (aplCheck apl pre info),
          violations = violations (aplCheck apl pre info) @
            [\<lparr>actualCast = ab, expectedCast = spell A, rule = A\<rparr>] \<rparr>"
      by (simp add: aplCheck_def Let_def aplRun_snoc reducer_successes reducer_violations)
  qed
qed

text \<open>Rules \<open>[A, B]\<close>, both unconditional, and the stream \<open>[cast B]\<close>.\<close>

theorem applicableRule_first_match_witness:
  "ruleApplies (SpellRule spellA) (aplRun aplAB []) (Cast 1 abilityB) \<and>
   ruleApplies (SpellRule spellB) (aplRun aplAB []) (Cast 1 abilityB) \<and>
   applicableRule aplAB (aplRun aplAB []) (Cast 1 abilityB) = Some (SpellRule spellA) \<and>
   aplCheck aplAB ([] @ [Cast 1 abilityB]) \<lparr>playerId = 1\<rparr> =
   \<lparr>successes = [],
     violations = [\<lparr>actualCast = abilityB, expectedCast = spellA, rule = SpellRule spellA\<rparr>]\<rparr>"
  using applicableRule_first_match
    [where apl = aplAB and result = "aplRun aplAB []" and event = "Cast 1 abilityB"
       and r = "SpellRule spellA" and A = "SpellRule spellA" and B = "SpellRule spellB"
       and pre = "[]" and src = 1 and ab = abilityB and info = "\<lparr>playerId = 1\<rparr>"]
  by (simp add: run_defs)

subsection \<open>C3: the decision reads the state before the event\<close>

text \<open>
  C3: the rule decision for an event reads the availability state and the condition
  state of the strict prefix of the stream before it, and both states are advanced with
  the event only after the decision. For a stream that ends with \<open>e\<close> after \<open>pre\<close>, the
  result is the result of \<open>pre\<close> extended by the record that the rule chosen for \<open>e\<close>
  yields, where the rule is chosen in the ability state and the condition state obtained
  by folding \<open>updateAbilities\<close> and \<open>updateState\<close> over \<open>pre\<close> alone, and those states
  do not involve \<open>e\<close>. The states after \<open>e\<close> are those states advanced with \<open>e\<close>.
\<close>

theorem decision_reads_prefix_state:
  "aplCheck apl (pre @ [e]) info =
     (case e of
        Cast src ab \<Rightarrow>
          if guid ab \<in> applicableSpells apl then
            (case applicableRule apl
                    \<lparr> successes = [], violations = [],
                      conditionState = foldl (updateState apl) (initState apl) pre,
                      abilityState = foldl updateAbilities (\<lambda>k. None) pre \<rparr> e of
               Some r \<Rightarrow>
                 if spell_id (spell r) = guid ab
                 then \<lparr> successes = successes (aplCheck apl pre info) @ [r],
                        violations = violations (aplCheck apl pre info) \<rparr>
                 else \<lparr> successes = successes (aplCheck apl pre info),
                        violations = violations (aplCheck apl pre info) @
                          [\<lparr>actualCast = ab, expectedCast = spell r, rule = r\<rparr>] \<rparr>
             | None \<Rightarrow> aplCheck apl pre info)
          else aplCheck apl pre info
      | _ \<Rightarrow> aplCheck apl pre info) \<and>
   abilityState (aplRun apl (pre @ [e])) =
     updateAbilities (foldl updateAbilities (\<lambda>k. None) pre) e \<and>
   conditionState (aplRun apl (pre @ [e])) =
     updateState apl (foldl (updateState apl) (initState apl) pre) e"
proof (intro conjI)
  let ?D = "\<lparr> successes = [], violations = [],
      conditionState = foldl (updateState apl) (initState apl) pre,
      abilityState = foldl updateAbilities (\<lambda>k. None) pre \<rparr>"
  have dec: "applicableRule apl (aplRun apl pre) e = applicableRule apl ?D e"
    by (rule applicableRule_cong_state)
      (simp_all add: aplRun_abilityState aplRun_conditionState)
  have res: "aplCheck apl (pre @ [e]) info =
      \<lparr> successes = successes (classify apl (aplRun apl pre) e),
        violations = violations (classify apl (aplRun apl pre) e) \<rparr>"
    by (simp add: aplCheck_def Let_def aplRun_snoc reducer_successes reducer_violations)
  have old: "aplCheck apl pre info =
      \<lparr> successes = successes (aplRun apl pre), violations = violations (aplRun apl pre) \<rparr>"
    by (simp add: aplCheck_def Let_def)
  show "aplCheck apl (pre @ [e]) info =
     (case e of
        Cast src ab \<Rightarrow>
          if guid ab \<in> applicableSpells apl then
            (case applicableRule apl ?D e of
               Some r \<Rightarrow>
                 if spell_id (spell r) = guid ab
                 then \<lparr> successes = successes (aplCheck apl pre info) @ [r],
                        violations = violations (aplCheck apl pre info) \<rparr>
                 else \<lparr> successes = successes (aplCheck apl pre info),
                        violations = violations (aplCheck apl pre info) @
                          [\<lparr>actualCast = ab, expectedCast = spell r, rule = r\<rparr>] \<rparr>
             | None \<Rightarrow> aplCheck apl pre info)
          else aplCheck apl pre info
      | _ \<Rightarrow> aplCheck apl pre info)"
    unfolding res dec [symmetric]
    by (simp add: old classify_def split: AnyEvent.splits option.splits)
  show "abilityState (aplRun apl (pre @ [e])) =
     updateAbilities (foldl updateAbilities (\<lambda>k. None) pre) e"
    by (simp add: aplRun_abilityState)
  show "conditionState (aplRun apl (pre @ [e])) =
     updateState apl (foldl (updateState apl) (initState apl) pre) e"
    by (simp add: aplRun_conditionState)
qed

text \<open>
  A condition that becomes true on any cast guards the rule for A. The first cast of A
  finds the condition still false, so no rule qualifies and nothing is recorded, although
  that same cast sets the condition; the second cast of A is a success. The proof uses
  the theorem and the definitions of the matcher and of the state updates only.
\<close>

theorem decision_reads_prefix_state_witness:
  "aplCheck castSeenApl ([] @ [Cast 1 abilityA]) \<lparr>playerId = 1\<rparr> =
     \<lparr>successes = [], violations = []\<rparr> \<and>
   conditionState (aplRun castSeenApl ([] @ [Cast 1 abilityA])) ''cast-seen'' =
     Some (State True) \<and>
   aplCheck castSeenApl ([Cast 1 abilityA] @ [Cast 1 abilityA]) \<lparr>playerId = 1\<rparr> =
     \<lparr>successes = [ConditionalRule spellA castSeen], violations = []\<rparr>"
proof -
  note matcher_defs = applicableRule_def ruleApplies_def applicableSpells_def initState_def
    updateState_def updateAbilities_def getProperty_def
  have first: "aplCheck castSeenApl ([] @ [Cast 1 abilityA]) \<lparr>playerId = 1\<rparr> =
      \<lparr>successes = [], violations = []\<rparr>"
    using decision_reads_prefix_state
      [of castSeenApl "[]" "Cast 1 abilityA" "\<lparr>playerId = 1\<rparr>"]
    by (simp add: matcher_defs aplCheck_Nil)
  have state: "conditionState (aplRun castSeenApl ([] @ [Cast 1 abilityA])) ''cast-seen'' =
      Some (State True)"
    using decision_reads_prefix_state
      [of castSeenApl "[]" "Cast 1 abilityA" "\<lparr>playerId = 1\<rparr>"]
    by (simp add: matcher_defs)
  have second: "aplCheck castSeenApl ([Cast 1 abilityA] @ [Cast 1 abilityA])
      \<lparr>playerId = 1\<rparr> =
      \<lparr>successes = [ConditionalRule spellA castSeen], violations = []\<rparr>"
    using decision_reads_prefix_state
      [of castSeenApl "[Cast 1 abilityA]" "Cast 1 abilityA" "\<lparr>playerId = 1\<rparr>"] first
    by (simp add: matcher_defs)
  from first state second show ?thesis by blast
qed

subsection \<open>C4: one record per governed cast with an applicable rule\<close>

text \<open>
  C4: when a governed cast finds an applicable rule, the rule is appended to
  \<open>successes\<close> if its spell id equals the cast's ability id, and otherwise a violation
  with that rule, its spell as \<open>expectedCast\<close> and the cast's ability as \<open>actualCast\<close> is
  appended to \<open>violations\<close>; the other list is unchanged, so exactly one record is added.
  Both lists are in stream order: the records of later events follow.
\<close>

theorem governed_cast_recorded:
  assumes "guid ab \<in> applicableSpells apl"
    and "applicableRule apl (aplRun apl pre) (Cast src ab) = Some r"
  shows "aplCheck apl (pre @ [Cast src ab]) info =
      (if spell_id (spell r) = guid ab
       then \<lparr> successes = successes (aplCheck apl pre info) @ [r],
              violations = violations (aplCheck apl pre info) \<rparr>
       else \<lparr> successes = successes (aplCheck apl pre info),
              violations = violations (aplCheck apl pre info) @
                [\<lparr>actualCast = ab, expectedCast = spell r, rule = r\<rparr>] \<rparr>) \<and>
    (\<exists>ss vs.
       successes (aplCheck apl (pre @ Cast src ab # post) info) =
         successes (aplCheck apl (pre @ [Cast src ab]) info) @ ss \<and>
       violations (aplCheck apl (pre @ Cast src ab # post) info) =
         violations (aplCheck apl (pre @ [Cast src ab]) info) @ vs)"
proof
  show "aplCheck apl (pre @ [Cast src ab]) info =
      (if spell_id (spell r) = guid ab
       then \<lparr> successes = successes (aplCheck apl pre info) @ [r],
              violations = violations (aplCheck apl pre info) \<rparr>
       else \<lparr> successes = successes (aplCheck apl pre info),
              violations = violations (aplCheck apl pre info) @
                [\<lparr>actualCast = ab, expectedCast = spell r, rule = r\<rparr>] \<rparr>)"
    using assms
    by (simp add: aplCheck_def Let_def aplRun_snoc reducer_successes reducer_violations
        classify_def)
next
  have "pre @ Cast src ab # post = (pre @ [Cast src ab]) @ post" by simp
  then have "aplRun apl (pre @ Cast src ab # post) =
      foldl (reducer apl) (aplRun apl (pre @ [Cast src ab])) post"
    by (simp only: aplRun_append)
  then show "\<exists>ss vs.
       successes (aplCheck apl (pre @ Cast src ab # post) info) =
         successes (aplCheck apl (pre @ [Cast src ab]) info) @ ss \<and>
       violations (aplCheck apl (pre @ Cast src ab # post) info) =
         violations (aplCheck apl (pre @ [Cast src ab]) info) @ vs"
    using foldl_reducer_extends [of apl "aplRun apl (pre @ [Cast src ab])" post]
    by (simp add: aplCheck_sel)
qed

text \<open>
  Rules \<open>[A, B]\<close> after a cast of B: a cast of A is a success, appended after the
  violation of the first cast is already on its list.
\<close>

theorem governed_cast_recorded_witness:
  "guid abilityA \<in> applicableSpells aplAB \<and>
   applicableRule aplAB (aplRun aplAB [Cast 1 abilityB]) (Cast 1 abilityA) =
     Some (SpellRule spellA) \<and>
   aplCheck aplAB ([Cast 1 abilityB] @ [Cast 1 abilityA]) \<lparr>playerId = 1\<rparr> =
     \<lparr>successes = [SpellRule spellA],
       violations =
         [\<lparr>actualCast = abilityB, expectedCast = spellA, rule = SpellRule spellA\<rparr>]\<rparr>"
  using governed_cast_recorded
    [of abilityA aplAB "[Cast 1 abilityB]" 1 "SpellRule spellA" "\<lparr>playerId = 1\<rparr>" "[]"]
  by (simp add: run_defs)

subsection \<open>C5: a governed cast with no applicable rule\<close>

text \<open>
  C5: when no rule qualifies for a governed cast, nothing is appended to \<open>successes\<close>
  and nothing to \<open>violations\<close>: the result after the cast is the result before it.
\<close>

theorem no_rule_silent:
  assumes "guid ab \<in> applicableSpells apl"
    and "applicableRule apl (aplRun apl pre) (Cast src ab) = None"
  shows "aplCheck apl (pre @ [Cast src ab]) info = aplCheck apl pre info"
  using assms
  by (simp add: aplCheck_def Let_def aplRun_snoc reducer_successes reducer_violations
      classify_def)

text \<open>
  The only rule governs A; the stream marks A unavailable and then casts A: the
  result is empty.
\<close>

theorem no_rule_silent_witness:
  "guid abilityA \<in> applicableSpells aplA \<and>
   applicableRule aplA
     (aplRun aplA [UpdateSpellUsable (UpdateSpellUsableEvent abilityA False)])
     (Cast 1 abilityA) = None \<and>
   aplCheck aplA
     ([UpdateSpellUsable (UpdateSpellUsableEvent abilityA False)] @ [Cast 1 abilityA])
     \<lparr>playerId = 1\<rparr> =
   \<lparr>successes = [], violations = []\<rparr>"
  using no_rule_silent
    [of abilityA aplA "[UpdateSpellUsable (UpdateSpellUsableEvent abilityA False)]" 1
        "\<lparr>playerId = 1\<rparr>"]
  by (simp add: run_defs)

subsection \<open>C6: a missing availability snapshot\<close>

text \<open>
  C6: when the ability state holds no snapshot for the spell of a rule, the
  availability check of \<open>ruleApplies\<close> passes, and the rule applies exactly when it is
  unconditional or its condition validates. After a run the snapshot of an id is absent
  exactly when no availability update of the processed events named that id.
\<close>

theorem missing_snapshot_is_available:
  "(abilityState result (spell_id (spell r)) = None \<longrightarrow>
      ruleApplies r result event =
        (case r of
           SpellRule sp \<Rightarrow> True
         | ConditionalRule sp cnd \<Rightarrow> validate cnd (getProperty (conditionState result) (key cnd)) event)) \<and>
   (abilityState (aplRun apl events) i = None \<longleftrightarrow>
      (\<forall>u. UpdateSpellUsable u \<in> set events \<longrightarrow> guid (usable_ability u) \<noteq> i))"
  by (simp add: ruleApplies_def aplRun_abilityState foldl_updateAbilities_None)

text \<open>
  After an availability update for B only, the snapshot of A is absent and the
  unconditional rule for A applies.
\<close>

theorem missing_snapshot_is_available_witness:
  "abilityState
     (aplRun aplAB [UpdateSpellUsable (UpdateSpellUsableEvent abilityB False)])
     (spell_id (spell (SpellRule spellA))) = None \<and>
   ruleApplies (SpellRule spellA)
     (aplRun aplAB [UpdateSpellUsable (UpdateSpellUsableEvent abilityB False)])
     (Cast 1 abilityA)"
  using missing_snapshot_is_available
    [of "aplRun aplAB [UpdateSpellUsable (UpdateSpellUsableEvent abilityB False)]"
        "SpellRule spellA" "Cast 1 abilityA" aplAB
        "[UpdateSpellUsable (UpdateSpellUsableEvent abilityB False)]" 1]
  by (simp add: run_defs)

subsection \<open>C7: the reference behaviour of \<open>buffPresent\<close>\<close>

text \<open>
  C7: the initial state of \<open>buffPresent\<close> is false; \<open>update\<close> returns true on an
  apply-buff event and false on a remove-buff event whose ability id is the spell's id,
  and returns the state unchanged on every other event; \<open>validate\<close> returns the current
  boolean state whatever the event is (\<^verbatim>\<open>undefined\<close> counts as false, an inherited
  member as true).
\<close>

theorem buffPresent_reference:
  "init (buffPresent numberToString sp target) = State False \<and>
   update (buffPresent numberToString sp target) state (ApplyBuff src ab) =
     (if guid ab = spell_id sp then State True else state) \<and>
   update (buffPresent numberToString sp target) state (RemoveBuff src ab) =
     (if guid ab = spell_id sp then State False else state) \<and>
   update (buffPresent numberToString sp target) state (Cast src ab) = state \<and>
   update (buffPresent numberToString sp target) state (UpdateSpellUsable u) = state \<and>
   update (buffPresent numberToString sp target) state (OtherEvent ty) = state \<and>
   validate (buffPresent numberToString sp target) (State b) event = b \<and>
   validate (buffPresent numberToString sp target) Undefined event = False \<and>
   validate (buffPresent numberToString sp target) (Inherited k) event = True"
  by (simp add: buffPresent_def buffPresent_update_def buffPresent_validate_def)

subsection \<open>C8: a rule whose condition key is not registered\<close>

text \<open>
  C8 states that for every conditional rule whose condition key belongs to no condition
  of \<open>conditions apl\<close>, the lookup of the key in the condition state yields an absent
  value, which is passed to the rule's \<open>validate\<close>, and the engine raises no error.
  The condition state is a plain object, so the claim fails for a key that names a
  member of \<^verbatim>\<open>Object.prototype\<close>: the key \<^verbatim>\<open>constructor\<close> is registered by no condition,
  yet its lookup yields the inherited member, \<open>validate\<close> receives that member, and
  with the \<open>validate\<close> of \<open>buffPresent\<close> the rule applies, where it would not apply to
  an absent value.
\<close>

theorem unregistered_prototype_key_counterexample:
  "key constructorCondition \<notin> key ` set ([] :: bool Condition list) \<and>
   conditionState (aplRun constructorApl [Cast 1 abilityA]) (key constructorCondition) =
     None \<and>
   getProperty (conditionState (aplRun constructorApl [Cast 1 abilityA]))
     (key constructorCondition) \<noteq> Undefined \<and>
   ruleApplies (ConditionalRule spellA constructorCondition)
     (aplRun constructorApl [Cast 1 abilityA]) (Cast 1 abilityA) \<noteq>
     ((case abilityState (aplRun constructorApl [Cast 1 abilityA]) (spell_id spellA) of
         None \<Rightarrow> True
       | Some u \<Rightarrow> isAvailable u) \<and>
      validate constructorCondition Undefined (Cast 1 abilityA)) \<and>
   aplCheck constructorApl [Cast 1 abilityA] \<lparr>playerId = 1\<rparr> =
     \<lparr>successes = [ConditionalRule spellA constructorCondition], violations = []\<rparr>"
  by (simp add: run_defs buffPresent_validate_def)

text \<open>
  C8 as amended: when the key of a rule's condition belongs to no condition of
  \<open>conditions apl\<close> (or the APL has no condition list) and is not a property name of
  \<^verbatim>\<open>Object.prototype\<close>, the condition state never holds a value under that key, its
  lookup yields \<^verbatim>\<open>undefined\<close>, and \<open>ruleApplies\<close> passes \<^verbatim>\<open>undefined\<close> to the rule's
  \<open>validate\<close>. The engine raises no error: the run on mutable objects, started in any
  store, returns a result (no store operation fails), and it is the result of
  \<open>aplCheck\<close>.
\<close>

theorem unregistered_condition_key:
  assumes "\<forall>cnds. conditions apl = Some cnds \<longrightarrow> key cnd \<notin> key ` set cnds"
    and "key cnd \<notin> set objectPrototypeNames"
  shows "conditionState (aplRun apl events) (key cnd) = None \<and>
    getProperty (conditionState (aplRun apl events)) (key cnd) = Undefined \<and>
    ruleApplies (ConditionalRule sp cnd) (aplRun apl events) event =
      ((case abilityState (aplRun apl events) (spell_id sp) of
          None \<Rightarrow> True
        | Some u \<Rightarrow> isAvailable u) \<and>
       validate cnd Undefined event) \<and>
    (\<exists>p h'. aplCheck_store apl events info h = Some (p, h') \<and>
       readResult h' p = Some (aplCheck apl events info))"
proof -
  have own: "conditionState (aplRun apl events) (key cnd) = None"
    using assms(1) by (rule aplRun_conditionState_absent)
  then have get: "getProperty (conditionState (aplRun apl events)) (key cnd) = Undefined"
    using assms(2) by (simp add: getProperty_def)
  have "\<exists>p h'. aplCheck_store apl events info h = Some (p, h') \<and>
       readResult h' p = Some (aplCheck apl events info)"
    using aplCheck_store_refines [of apl events info h] by blast
  with own get show ?thesis
    by (simp add: ruleApplies_def)
qed

text \<open>
  The rule for A is guarded by \<open>castSeen\<close>, which the APL does not register. The run
  over two casts of A completes; \<open>validate\<close> receives \<^verbatim>\<open>undefined\<close> each time, and
  nothing is recorded.
\<close>

theorem unregistered_condition_key_witness:
  "key castSeen \<notin> key ` set ([] :: bool Condition list) \<and>
   key castSeen \<notin> set objectPrototypeNames \<and>
   getProperty
     (conditionState
        (aplRun \<lparr>conditions = Some [], rules = [ConditionalRule spellA castSeen]\<rparr>
           [Cast 1 abilityA, Cast 1 abilityA])) (key castSeen) = Undefined \<and>
   aplCheck \<lparr>conditions = Some [], rules = [ConditionalRule spellA castSeen]\<rparr>
     [Cast 1 abilityA, Cast 1 abilityA] \<lparr>playerId = 1\<rparr> =
   \<lparr>successes = [], violations = []\<rparr>"
  using unregistered_condition_key
    [of "\<lparr>conditions = Some [], rules = [ConditionalRule spellA castSeen]\<rparr>" castSeen
        "[Cast 1 abilityA, Cast 1 abilityA]" spellA "Cast 1 abilityA" "\<lparr>playerId = 1\<rparr>"
        "\<lparr>cells = (\<lambda>a. None), fresh = 0\<rparr>"]
  by (simp add: run_defs)

subsection \<open>C9: determinism\<close>

text \<open>
  C9: two runs of the check on the same \<open>(apl, events, playerId)\<close> produce equal
  results, and the result depends on nothing outside these inputs. In the store
  embedding, where the arrays and the ability object are mutated in place: a run started
  in an arbitrary store \<open>h\<close> returns; a second run, started in the store that the first
  one left, returns too; each result, read from the store its run left, is the value of
  the function \<open>aplCheck\<close> on the inputs; and the result of the first run still reads
  the same after the second run. The functions of a condition are functions of their
  arguments, as the contract of a condition requires.
\<close>

theorem aplCheck_deterministic:
  "\<exists>p1 h1 p2 h2.
     aplCheck_store apl events info h = Some (p1, h1) \<and>
     aplCheck_store apl events info h1 = Some (p2, h2) \<and>
     readResult h1 p1 = Some (aplCheck apl events info) \<and>
     readResult h2 p2 = Some (aplCheck apl events info) \<and>
     readResult h2 p1 = Some (aplCheck apl events info)"
proof -
  obtain p1 h1 where r1: "aplCheck_store apl events info h = Some (p1, h1)"
    "readResult h1 p1 = Some (aplCheck apl events info)"
    "successesRef p1 = fresh h" "violationsRef p1 = Suc (fresh h)"
    "abilityStateRef p1 = Suc (Suc (fresh h))" "fresh h1 = Suc (Suc (Suc (fresh h)))"
    using aplCheck_store_refines [of apl events info h] by blast
  obtain p2 h2 where r2: "aplCheck_store apl events info h1 = Some (p2, h2)"
    "readResult h2 p2 = Some (aplCheck apl events info)"
    "\<forall>a. a \<noteq> fresh h1 \<and> a \<noteq> Suc (fresh h1) \<and> a \<noteq> Suc (Suc (fresh h1))
        \<longrightarrow> cells h2 a = cells h1 a"
    using aplCheck_store_refines [of apl events info h1] by blast
  have "readResult h2 p1 = readResult h1 p1"
    by (rule readResult_cong) (simp_all add: r1(3,4,5,6) r2(3))
  with r1 r2 show ?thesis by simp
qed

subsection \<open>C10: the target of \<open>buffPresent\<close>\<close>

text \<open>
  C10: the target argument of \<open>buffPresent\<close> enters the key only. For one spell and any
  two targets, the initial value, the result of \<open>update\<close> and the result of \<open>validate\<close>
  are equal: a buff is matched by its ability id alone.
\<close>

theorem buffPresent_target_only_in_key:
  "init (buffPresent numberToString sp t1) = init (buffPresent numberToString sp t2) \<and>
   update (buffPresent numberToString sp t1) state event =
     update (buffPresent numberToString sp t2) state event \<and>
   validate (buffPresent numberToString sp t1) state event =
     validate (buffPresent numberToString sp t2) state event \<and>
   key (buffPresent numberToString sp t) =
     ''buffPresent-'' @ numberToString (spell_id sp) @ ''-'' @ numberToString t"
  by (simp add: buffPresent_def)

end
